theory Spec2Isabelle
  imports Main "HOL-Library.Word"
begin

section \<open>Tracked memory of libvips (libvips/iofuncs/memory.c)\<close>

text \<open>
  The embedding follows the C file on an LP64 platform (x86-64): \<open>size_t\<close> and
  pointers are 64-bit words (arithmetic wraps modulo \<open>2 ^ 64\<close>), \<open>int\<close> is a 32-bit
  word read in two's complement by \<open>sint\<close>. \<open>NULL\<close> is the pointer \<open>0\<close>.

  Where C leaves the behaviour undefined, the embedding takes what the compiled code
  does: the count wraps like the machine integer it is, a conversion to \<open>int\<close> of a
  double that does not fit gives \<open>INT_MIN\<close>, and a block that was given back can still
  be read; what it then holds is up to the byte allocator.
\<close>

type_synonym size_t = "64 word"
type_synonym ptr = "64 word"
type_synonym c_int = "32 word"

subsection \<open>The reporting channel\<close>

text \<open>
  \<open>vips_error\<close> and \<open>vips_warn\<close> take a domain, a printf format and its arguments.
  A report is kept as these three parts. An integer argument is the number that \<open>%d\<close>
  prints.
\<close>

datatype arg = Int_arg int | Str_arg string

type_synonym report = "string \<times> string \<times> arg list"

subsection \<open>The state\<close>

text \<open>
  Handlers connected to the \<open>postclose\<close> signal of an object: the two callbacks of the
  file, each with the buffer it was connected with.
\<close>

datatype callback = Vips_malloc_cb | Vips_tracked_cb

text \<open>
  The three static counters and the mutex pointer of the file (\<open>True\<close> once the mutex
  exists), and what the file reaches outside itself:
  \<^item> \<open>memory\<close>: the \<open>size_t\<close> stored at an address (only block headers are
    ever written or read here, each at the base of its block);
  \<^item> \<open>g_blocks\<close>: the blocks that the byte allocator of glib has handed out to this file
    and not yet got back, each with its base address and its length in bytes, newest first;
  \<^item> \<open>g_free_leaves\<close>: what the byte allocator leaves in the first word of a block it
    gets back, given the base of the block and the word that was there;
  \<^item> \<open>handlers\<close>: the \<open>postclose\<close> connections made by \<open>g_signal_connect\<close>, as
    (object, callback, buffer), in the order they were made;
  \<^item> \<open>error_buffer\<close> and \<open>warnings\<close>: what \<open>vips_error\<close> and \<open>vips_warn\<close>
    were called with, oldest first.
\<close>

record vips_state =
  vips_tracked_allocs :: c_int
  vips_tracked_mem :: size_t
  vips_tracked_mem_highwater :: size_t
  vips_tracked_mutex :: bool
  memory :: "ptr \<Rightarrow> size_t"
  g_blocks :: "(ptr \<times> size_t) list"
  g_free_leaves :: "ptr \<Rightarrow> size_t \<Rightarrow> size_t"
  handlers :: "(ptr \<times> callback \<times> ptr) list"
  error_buffer :: "report list"
  warnings :: "report list"

text \<open>Two byte allocators as to what they leave in a block they get back: the word that
  was there, or a value of their own.\<close>

definition keeps :: "ptr \<Rightarrow> size_t \<Rightarrow> size_t" where
  "keeps b w = w"

definition overwrites :: "size_t \<Rightarrow> ptr \<Rightarrow> size_t \<Rightarrow> size_t" where
  "overwrites v b w = v"

text \<open>The state at program start: the static initialisers of the file, nothing allocated,
  nothing connected, nothing reported. Its byte allocator leaves the bytes of a block it
  gets back as they were; another allocator is another value of \<open>g_free_leaves\<close>.\<close>

definition vips_init :: vips_state where
  "vips_init =
     \<lparr>vips_tracked_allocs = 0, vips_tracked_mem = 0, vips_tracked_mem_highwater = 0,
      vips_tracked_mutex = False, memory = (\<lambda>_. 0), g_blocks = [], g_free_leaves = keeps,
      handlers = [], error_buffer = [], warnings = []\<rparr>"

subsection \<open>The collaborators\<close>

text \<open>
  Modelled from the spec: \<open>vips_error\<close> and \<open>vips_warn\<close> are not in this file. The spec
  (external interfaces) has \<open>report_error(domain, message)\<close> and
  \<open>report_warning(domain, message)\<close>, fire-and-forget, not altering control flow: each
  call appends its report to its channel.
\<close>

definition vips_error :: "string \<Rightarrow> string \<Rightarrow> arg list \<Rightarrow> vips_state \<Rightarrow> vips_state" where
  "vips_error domain fmt args st = st\<lparr>error_buffer := error_buffer st @ [(domain, fmt, args)]\<rparr>"

definition vips_warn :: "string \<Rightarrow> string \<Rightarrow> arg list \<Rightarrow> vips_state \<Rightarrow> vips_state" where
  "vips_warn domain fmt args st = st\<lparr>warnings := warnings st @ [(domain, fmt, args)]\<rparr>"

text \<open>
  Modelled from the spec: \<open>g_free\<close> is the \<open>release(pointer)\<close> of the byte allocator. It
  gives the block based at \<open>s\<close> back. The header is erased by the deallocation: the
  first word of the block becomes what the allocator leaves there, so a later read of
  the header finds that, not necessarily the length that was stored.
\<close>

definition g_free :: "vips_state \<Rightarrow> ptr \<Rightarrow> vips_state" where
  "g_free st s =
     st\<lparr>g_blocks := filter (\<lambda>(b, n). b \<noteq> s) (g_blocks st),
        memory := (memory st)(s := g_free_leaves st s (memory st s))\<rparr>"

text \<open>
  Modelled from the spec: \<open>g_signal_connect(object, "postclose", G_CALLBACK(cb), buf)\<close>
  is the \<open>on_destroy(object, callback, argument)\<close> of the owning-object lifecycle; it adds
  the connection and cannot fail.
\<close>

definition g_signal_connect :: "vips_state \<Rightarrow> ptr \<Rightarrow> callback \<Rightarrow> ptr \<Rightarrow> vips_state" where
  "g_signal_connect st object cb buf = st\<lparr>handlers := handlers st @ [(object, cb, buf)]\<rparr>"

text \<open>
  The argument of the out-of-memory report, \<open>(int) (size / (1024.0*1024.0))\<close>: the size
  as a double, divided by \<open>2 ^ 20\<close>, truncated to \<open>int\<close>. Where the quotient fits
  \<open>int\<close> the size is below \<open>2 ^ 51\<close>, so the double holds it exactly, the division by a
  power of two is exact and the truncation is the integer quotient. Where it does not
  fit, C leaves the conversion undefined; the conversion instruction of the compiled
  code gives \<open>INT_MIN\<close>.
\<close>

definition size_mb :: "size_t \<Rightarrow> int" where
  "size_mb sz = (if unat sz div 1048576 \<le> 2147483647
                   then int (unat sz div 1048576) else - 2147483648)"

subsection \<open>The functions of the file\<close>

text \<open>
  \<open>vips_tracked_free\<close>. The header is read at \<open>s - 16\<close> before the lock is taken. The
  comparison of the unsigned counter with zero is kept as the code has it. The variable
  \<open>size\<close> of the C code is \<open>sz\<close> here and below (\<open>size\<close> is a constant of HOL).
  Taking and releasing the mutex changes nothing in a run of one thread.
\<close>

definition vips_tracked_free :: "vips_state \<Rightarrow> ptr \<Rightarrow> vips_state" where
  "vips_tracked_free st0 s0 =
     (let s = s0 - 16;
          sz = memory st0 s;
          st1 = (if sint (vips_tracked_allocs st0) \<le> 0
                 then vips_warn ''vips_tracked'' ''%s'' [Str_arg ''vips_free: too many frees''] st0
                 else st0);
          st2 = st1\<lparr>vips_tracked_mem := vips_tracked_mem st1 - sz\<rparr>;
          st3 = (if vips_tracked_mem st2 < 0
                 then vips_warn ''vips_tracked'' ''%s'' [Str_arg ''vips_free: too much free''] st2
                 else st2);
          st4 = st3\<lparr>vips_tracked_allocs := vips_tracked_allocs st3 - 1\<rparr>
      in g_free st4 s)"

definition vips_tracked_cb :: "vips_state \<Rightarrow> ptr \<Rightarrow> ptr \<Rightarrow> vips_state" where
  "vips_tracked_cb st object buf = vips_tracked_free st buf"

definition vips_malloc_cb :: "vips_state \<Rightarrow> ptr \<Rightarrow> ptr \<Rightarrow> vips_state" where
  "vips_malloc_cb st object buf = g_free st buf"

text \<open>
  \<open>vips_tracked_malloc\<close>. \<open>DEBUG\<close> is the macro of the file (not defined in a normal
  build): with it, \<open>g_assert( 0 )\<close> stops the process. \<open>g_try_malloc\<close> is the byte
  allocator of glib as it answers this call: the base of a block of the length asked for,
  or \<open>NULL\<close>; a block it hands out is entered in \<open>g_blocks\<close>.
\<close>

datatype abort = Assertion_failed

definition vips_tracked_malloc ::
  "bool \<Rightarrow> (size_t \<Rightarrow> ptr) \<Rightarrow> vips_state \<Rightarrow> ptr \<Rightarrow> size_t \<Rightarrow> abort + (ptr \<times> vips_state)" where
  "vips_tracked_malloc DEBUG g_try_malloc st0 object size0 =
     (let st1 = st0\<lparr>vips_tracked_mutex := True\<rparr>;
          sz = size0 + 16;
          buf = g_try_malloc sz
      in if buf = 0 then
           (if DEBUG then Inl Assertion_failed
            else Inr (0,
              vips_warn ''vips_tracked'' ''out of memory --- size == %dMB'' [Int_arg (size_mb sz)]
                (vips_error ''vips_tracked'' ''out of memory --- size == %dMB''
                   [Int_arg (size_mb sz)] st1)))
         else
           (let st2 = st1\<lparr>g_blocks := (buf, sz) # g_blocks st1\<rparr>;
                st3 = st2\<lparr>memory := (memory st2)(buf := sz)\<rparr>;
                buf' = buf + 16;
                st4 = st3\<lparr>vips_tracked_mem := vips_tracked_mem st3 + sz\<rparr>;
                st5 = (if vips_tracked_mem st4 > vips_tracked_mem_highwater st4
                       then st4\<lparr>vips_tracked_mem_highwater := vips_tracked_mem st4\<rparr>
                       else st4);
                st6 = st5\<lparr>vips_tracked_allocs := vips_tracked_allocs st5 + 1\<rparr>;
                st7 = (if object \<noteq> 0 then g_signal_connect st6 object Vips_tracked_cb buf'
                       else st6)
            in Inr (buf', st7)))"

definition vips_tracked_get_mem :: "vips_state \<Rightarrow> size_t" where
  "vips_tracked_get_mem st = vips_tracked_mem st"

definition vips_tracked_get_mem_highwater :: "vips_state \<Rightarrow> size_t" where
  "vips_tracked_get_mem_highwater st = vips_tracked_mem_highwater st"

definition vips_tracked_get_allocs :: "vips_state \<Rightarrow> c_int" where
  "vips_tracked_get_allocs st = vips_tracked_allocs st"

subsection \<open>Sequences of calls\<close>

text \<open>A call of the tracked allocator as a client makes it: an allocation (owner, size,
  and the answer the byte allocator gives at that moment) or a free.\<close>

datatype call = Malloc ptr size_t "size_t \<Rightarrow> ptr" | Free ptr

text \<open>Running a sequence of calls returns the pointers the allocations returned, in
  order, and the final state; an abort ends the run.\<close>

fun run :: "bool \<Rightarrow> vips_state \<Rightarrow> call list \<Rightarrow> abort + (ptr list \<times> vips_state)" where
  "run DEBUG st [] = Inr ([], st)"
| "run DEBUG st (Malloc object sz g # cs) =
     (case vips_tracked_malloc DEBUG g st object sz of
        Inl a \<Rightarrow> Inl a
      | Inr (p, st') \<Rightarrow>
          (case run DEBUG st' cs of
             Inl a \<Rightarrow> Inl a
           | Inr (ps, st'') \<Rightarrow> Inr (p # ps, st'')))"
| "run DEBUG st (Free p # cs) = run DEBUG (vips_tracked_free st p) cs"

subsection \<open>Two byte allocators for concrete runs\<close>

text \<open>An allocator that is exhausted, and one that answers every request by the base
  \<open>b\<close> (glib returns \<open>NULL\<close> for a request of zero bytes).\<close>

definition exhausted :: "size_t \<Rightarrow> ptr" where
  "exhausted n = 0"

definition block_at :: "ptr \<Rightarrow> size_t \<Rightarrow> ptr" where
  "block_at b n = (if n = 0 then 0 else b)"

subsection \<open>Proper use\<close>

text \<open>
  What a byte allocator guarantees about the blocks that are live together: each is
  based at a non-null address, is not empty, ends inside the address space, and overlaps
  no other.
\<close>

fun disjoint_blocks :: "(ptr \<times> size_t) list \<Rightarrow> bool" where
  "disjoint_blocks [] = True"
| "disjoint_blocks ((b, n) # bs) =
     (b \<noteq> 0 \<and> 0 < unat n \<and> unat b + unat n \<le> 2 ^ 64 \<and>
      list_all (\<lambda>(b', m). unat b' + unat m \<le> unat b \<or> unat b + unat n \<le> unat b') bs \<and>
      disjoint_blocks bs)"

definition live_bytes :: "vips_state \<Rightarrow> nat" where
  "live_bytes st = sum_list (map (\<lambda>(b, n). unat n) (g_blocks st))"

text \<open>A state is consistent when the live blocks are as an allocator hands them out, the
  header of each holds its length, the byte counter is their total, and the high-water
  mark is not below the byte counter.\<close>

definition consistent :: "vips_state \<Rightarrow> bool" where
  "consistent st \<longleftrightarrow>
     disjoint_blocks (g_blocks st) \<and>
     list_all (\<lambda>(b, n). memory st b = n) (g_blocks st) \<and>
     unat (vips_tracked_mem st) = live_bytes st \<and>
     vips_tracked_mem st \<le> vips_tracked_mem_highwater st"

text \<open>
  A call is in order when, for an allocation, the byte allocator either fails or hands
  out a block that keeps the live blocks disjoint, and when, for a free, the pointer is
  the payload of a live block. A sequence is proper when every call is in order in the
  state it is made in (normal build).
\<close>

fun call_ok :: "vips_state \<Rightarrow> call \<Rightarrow> bool" where
  "call_ok st (Malloc object sz g) =
     (g (sz + 16) = 0 \<or> disjoint_blocks ((g (sz + 16), sz + 16) # g_blocks st))"
| "call_ok st (Free p) = (p - 16 \<in> fst ` set (g_blocks st))"

fun proper :: "vips_state \<Rightarrow> call list \<Rightarrow> bool" where
  "proper st [] = True"
| "proper st (Malloc object sz g # cs) =
     (call_ok st (Malloc object sz g) \<and>
      (case vips_tracked_malloc False g st object sz of
         Inl a \<Rightarrow> False
       | Inr (p, st') \<Rightarrow> proper st' cs))"
| "proper st (Free p # cs) = (call_ok st (Free p) \<and> proper (vips_tracked_free st p) cs)"

subsection \<open>Destruction of an owner\<close>

text \<open>
  Modelled from the spec: the object system that emits \<open>postclose\<close> when an owner is
  destroyed is not in this file. The spec (external interfaces) has
  \<open>on_destroy(object, callback, argument)\<close> register \<open>callback(argument)\<close> to run
  exactly once when \<open>object\<close> is destroyed: destroying an object disconnects its
  handlers and runs each of them once, in the order they were connected.
\<close>

fun run_handlers :: "vips_state \<Rightarrow> ptr \<Rightarrow> (ptr \<times> callback \<times> ptr) list \<Rightarrow> vips_state" where
  "run_handlers st object [] = st"
| "run_handlers st object ((obj, cb, buf) # hs) =
     run_handlers
       (if obj = object
        then (case cb of
                Vips_tracked_cb \<Rightarrow> vips_tracked_cb st object buf
              | Vips_malloc_cb \<Rightarrow> vips_malloc_cb st object buf)
        else st)
       object hs"

definition object_destroy :: "vips_state \<Rightarrow> ptr \<Rightarrow> vips_state" where
  "object_destroy st object =
     run_handlers (st\<lparr>handlers := filter (\<lambda>(obj, cb, buf). obj \<noteq> object) (handlers st)\<rparr>)
       object (handlers st)"

subsection \<open>Megabytes\<close>

text \<open>A size in whole megabytes, as the spec uses the word for the figure of the
  out-of-memory report.\<close>

definition megabytes :: "size_t \<Rightarrow> int" where
  "megabytes sz = int (unat sz div 1048576)"

text \<open>A report carries the size \<open>sz\<close> in megabytes: it is the out-of-memory report
  whose figure is that number.\<close>

definition reports_size :: "size_t \<Rightarrow> report \<Rightarrow> bool" where
  "reports_size sz r \<longleftrightarrow>
     r = (''vips_tracked'', ''out of memory --- size == %dMB'', [Int_arg (megabytes sz)])"

subsection \<open>The addresses of the live blocks\<close>

text \<open>The addresses that a list of blocks occupies.\<close>

definition cover :: "(ptr \<times> size_t) list \<Rightarrow> nat set" where
  "cover bs = (\<Union>(b, n) \<in> set bs. {unat b ..< unat b + unat n})"

section \<open>Properties\<close>

subsection \<open>Auxiliary facts\<close>

lemmas vdefs = vips_tracked_malloc_def vips_tracked_free_def vips_error_def vips_warn_def
  g_free_def g_signal_connect_def vips_tracked_get_mem_def vips_tracked_get_allocs_def
  vips_tracked_get_mem_highwater_def

lemma malloc_counts:
  assumes "vips_tracked_malloc DEBUG g st object n = Inr (p, st1)" and "p \<noteq> 0"
  shows "vips_tracked_mem st1 = vips_tracked_mem st + (n + 16)"
    and "vips_tracked_allocs st1 = vips_tracked_allocs st + 1"
  using assms by (auto simp: vdefs Let_def split: if_splits)

lemma free_mem:
  "vips_tracked_mem (vips_tracked_free st p) = vips_tracked_mem st - memory st (p - 16)"
  by (simp add: vips_tracked_free_def vips_warn_def g_free_def Let_def)

lemma free_warnings:
  "warnings (vips_tracked_free st p) =
     warnings st @ (if sint (vips_tracked_allocs st) \<le> 0
                    then [(''vips_tracked'', ''%s'', [Str_arg ''vips_free: too many frees''])]
                    else [])"
  by (simp add: vips_tracked_free_def vips_warn_def g_free_def Let_def)

lemma unat_neg: "0 < unat x \<Longrightarrow> unat (- x) = 2 ^ 64 - unat x" for x :: size_t
  using unat_sub_if_size [of 0 x] by (simp add: word_size)

lemma neg_gt: "0 < unat x \<Longrightarrow> unat x < 2 ^ 63 \<Longrightarrow> x < - x" for x :: size_t
  by (simp add: word_less_nat_alt unat_neg)

lemma run_mallocs:
  "run DEBUG st (map (\<lambda>(object, n, g). Malloc object n g) reqs) = Inr (ps, st') \<Longrightarrow>
   \<forall>p \<in> set ps. p \<noteq> 0 \<Longrightarrow>
   vips_tracked_mem st' = vips_tracked_mem st + (\<Sum>(object, n, g)\<leftarrow>reqs. n + 16) \<and>
   vips_tracked_allocs st' = vips_tracked_allocs st + of_nat (length reqs) \<and>
   length ps = length reqs"
proof (induction reqs arbitrary: st ps)
  case Nil
  then show ?case by simp
next
  case (Cons r reqs)
  obtain object n g where r: "r = (object, n, g)" by (cases r)
  from Cons.prems(1) r obtain p st1 ps1 where
    m: "vips_tracked_malloc DEBUG g st object n = Inr (p, st1)" and
    t: "run DEBUG st1 (map (\<lambda>(object, n, g). Malloc object n g) reqs) = Inr (ps1, st')" and
    ps: "ps = p # ps1"
    by (auto split: sum.splits prod.splits)
  from Cons.prems(2) ps have p: "p \<noteq> 0" and ps1: "\<forall>p \<in> set ps1. p \<noteq> 0" by simp_all
  from Cons.IH [OF t ps1] malloc_counts [OF m p] r ps show ?case
    by (simp add: algebra_simps)
qed

lemma unat_padded_sum:
  "(\<Sum>(object, n, g)\<leftarrow>reqs. unat n + 16) < 2 ^ 64 \<Longrightarrow>
   unat (\<Sum>(object, n, g)\<leftarrow>reqs. n + 16) = (\<Sum>(object, n, g)\<leftarrow>reqs. unat n + 16)"
  for reqs :: "(ptr \<times> size_t \<times> (size_t \<Rightarrow> ptr)) list"
proof (induction reqs)
  case Nil
  then show ?case by simp
next
  case (Cons r reqs)
  obtain object n g where r: "r = (object, n, g)" by (cases r)
  let ?w = "\<Sum>(object, n, g)\<leftarrow>reqs. n + 16"
  let ?s = "\<Sum>(object, n, g)\<leftarrow>reqs. unat n + 16"
  from Cons.prems r have b: "unat n + 16 + ?s < 2 ^ 64" by simp
  then have ih: "unat ?w = ?s" using Cons.IH by simp
  from b have u: "unat (n + 16) = unat n + 16"
    using unat_add_lem [of n 16] by simp
  have "unat ((n + 16) + ?w) = unat (n + 16) + unat ?w"
    using unat_add_lem [of "n + 16" ?w] b u ih by simp
  then show ?case using r u ih by simp
qed

lemma sint_count: "N < 2 ^ 31 \<Longrightarrow> sint (of_nat N :: c_int) = int N"
  by (simp add: signed_of_nat signed_take_bit_int_eq_self)

lemma cover_Nil: "cover [] = {}"
  by (simp add: cover_def)

lemma cover_Cons: "cover ((b, n) # bs) = {unat b ..< unat b + unat n} \<union> cover bs"
  by (simp add: cover_def)

lemma finite_cover: "finite (cover bs)"
  by (simp add: cover_def split_beta)

lemma disjoint_cover:
  "disjoint_blocks bs \<Longrightarrow>
   card (cover bs) = (\<Sum>(b, n)\<leftarrow>bs. unat n) \<and> cover bs \<subseteq> {1 ..< 2 ^ 64}"
proof (induction bs)
  case Nil
  then show ?case by (simp add: cover_Nil)
next
  case (Cons x bs)
  obtain b n where x: "x = (b, n)" by (cases x)
  from Cons.prems x have b0: "b \<noteq> 0" and fit: "unat b + unat n \<le> 2 ^ 64"
    and apart: "list_all (\<lambda>(b', m). unat b' + unat m \<le> unat b \<or> unat b + unat n \<le> unat b') bs"
    and rest: "disjoint_blocks bs"
    by simp_all
  from Cons.IH [OF rest] have c: "card (cover bs) = (\<Sum>(b, n)\<leftarrow>bs. unat n)"
    and s: "cover bs \<subseteq> {1 ..< 2 ^ 64}" by blast+
  have d: "{unat b ..< unat b + unat n} \<inter> cover bs = {}"
    using apart by (fastforce simp: cover_def list_all_iff)
  have "card (cover (x # bs)) = card {unat b ..< unat b + unat n} + card (cover bs)"
    unfolding x cover_Cons by (rule card_Un_disjoint) (simp_all add: finite_cover d)
  then have 1: "card (cover (x # bs)) = (\<Sum>(b, n)\<leftarrow>x # bs. unat n)"
    using c x by simp
  from b0 have "1 \<le> unat b" by (simp add: unat_gt_0 Suc_leI)
  then have "{unat b ..< unat b + unat n} \<subseteq> {1 ..< 2 ^ 64}"
    using fit by auto
  then have 2: "cover (x # bs) \<subseteq> {1 ..< 2 ^ 64}"
    using s unfolding x cover_Cons by blast
  from 1 2 show ?case by simp
qed

lemma disjoint_sum_bound:
  assumes "disjoint_blocks bs"
  shows "(\<Sum>(b, n)\<leftarrow>bs. unat n) < 2 ^ 64"
proof -
  from disjoint_cover [OF assms] have c: "card (cover bs) = (\<Sum>(b, n)\<leftarrow>bs. unat n)"
    and s: "cover bs \<subseteq> {1 ..< 2 ^ 64}" by blast+
  have "card (cover bs) \<le> card {1 ..< (2::nat) ^ 64}"
    by (rule card_mono [OF _ s]) simp
  then show ?thesis using c by simp
qed

lemma disjoint_fresh:
  "disjoint_blocks ((b, n) # bs) \<Longrightarrow> b \<notin> fst ` set bs"
proof (induction bs)
  case Nil
  then show ?case by simp
next
  case (Cons y bs)
  obtain c m where y: "y = (c, m)" by (cases y)
  from Cons.prems y have "0 < unat n" "0 < unat m"
    "unat c + unat m \<le> unat b \<or> unat b + unat n \<le> unat c"
    by simp_all
  then have "c \<noteq> b" by auto
  moreover from Cons.prems y have "disjoint_blocks ((b, n) # bs)" by simp
  ultimately show ?case using Cons.IH y by simp
qed

lemma disjoint_distinct: "disjoint_blocks bs \<Longrightarrow> distinct (map fst bs)"
proof (induction bs)
  case Nil
  then show ?case by simp
next
  case (Cons x bs)
  obtain b n where x: "x = (b, n)" by (cases x)
  from Cons.prems x have "disjoint_blocks bs" by simp
  with Cons.IH have "distinct (map fst bs)" by simp
  moreover have "b \<notin> fst ` set bs"
    by (rule disjoint_fresh [of b n]) (use Cons.prems x in simp)
  ultimately show ?case using x by simp
qed

lemma disjoint_filter: "disjoint_blocks bs \<Longrightarrow> disjoint_blocks (filter P bs)"
proof (induction bs)
  case Nil
  then show ?case by simp
next
  case (Cons x bs)
  obtain b n where x: "x = (b, n)" by (cases x)
  from Cons.prems x Cons.IH show ?case
    by (auto simp: list_all_iff)
qed

lemma filter_other: "s \<notin> fst ` set bs \<Longrightarrow> filter (\<lambda>(b, n). b \<noteq> s) bs = bs"
  by (induction bs) auto

lemma sum_remove:
  "distinct (map fst bs) \<Longrightarrow> (s, k) \<in> set bs \<Longrightarrow>
   (\<Sum>(b, n)\<leftarrow>filter (\<lambda>(b, n). b \<noteq> s) bs. unat n) + unat k = (\<Sum>(b, n)\<leftarrow>bs. unat n)"
proof (induction bs)
  case Nil
  then show ?case by simp
next
  case (Cons x bs)
  obtain b n where x: "x = (b, n)" by (cases x)
  show ?case
  proof (cases "b = s")
    case True
    with Cons.prems x have k: "k = n" and f: "s \<notin> fst ` set bs"
      by (auto simp: image_iff)
    then show ?thesis using x True by (simp add: filter_other)
  next
    case False
    with Cons.prems x have "(s, k) \<in> set bs" "distinct (map fst bs)" by auto
    with Cons.IH have "(\<Sum>(b, n)\<leftarrow>filter (\<lambda>(b, n). b \<noteq> s) bs. unat n) + unat k = (\<Sum>(b, n)\<leftarrow>bs. unat n)"
      by simp
    then show ?thesis using x False by simp
  qed
qed

lemma consistent_free:
  assumes c: "consistent st" and ok: "call_ok st (Free p)"
  shows "consistent (vips_tracked_free st p)"
proof -
  let ?s = "p - 16"
  from ok obtain k where k: "(?s, k) \<in> set (g_blocks st)" by auto
  from c have d: "disjoint_blocks (g_blocks st)"
    and h: "list_all (\<lambda>(b, n). memory st b = n) (g_blocks st)"
    and m: "unat (vips_tracked_mem st) = live_bytes st"
    and w: "vips_tracked_mem st \<le> vips_tracked_mem_highwater st"
    by (simp_all add: consistent_def)
  from h k have hk: "memory st ?s = k" by (auto simp: list_all_iff)
  have sum: "(\<Sum>(b, n)\<leftarrow>filter (\<lambda>(b, n). b \<noteq> ?s) (g_blocks st). unat n) + unat k = live_bytes st"
    unfolding live_bytes_def by (rule sum_remove [OF disjoint_distinct [OF d] k])
  then have le: "unat k \<le> unat (vips_tracked_mem st)" using m by simp
  then have kle: "k \<le> vips_tracked_mem st" by (simp add: word_le_nat_alt)
  have sub: "unat (vips_tracked_mem st - k) = unat (vips_tracked_mem st) - unat k"
    by (rule unat_sub [OF kle])
  let ?st' = "vips_tracked_free st p"
  have g: "g_blocks ?st' = filter (\<lambda>(b, n). b \<noteq> ?s) (g_blocks st)"
    by (simp add: vips_tracked_free_def vips_warn_def g_free_def Let_def)
  have mem: "memory ?st' b = memory st b" if "b \<noteq> ?s" for b
    using that by (simp add: vips_tracked_free_def vips_warn_def g_free_def Let_def)
  have hw: "vips_tracked_mem_highwater ?st' = vips_tracked_mem_highwater st"
    by (simp add: vips_tracked_free_def vips_warn_def g_free_def Let_def)
  have tm: "vips_tracked_mem ?st' = vips_tracked_mem st - k"
    by (simp add: free_mem hk)
  have 1: "disjoint_blocks (g_blocks ?st')"
    unfolding g by (rule disjoint_filter [OF d])
  have 2: "list_all (\<lambda>(b, n). memory ?st' b = n) (g_blocks ?st')"
    unfolding g using h by (auto simp: list_all_iff mem)
  have 3: "unat (vips_tracked_mem ?st') = live_bytes ?st'"
    unfolding tm sub live_bytes_def g using sum m by simp
  have "unat (vips_tracked_mem ?st') \<le> unat (vips_tracked_mem st)"
    unfolding tm sub by simp
  then have 4: "vips_tracked_mem ?st' \<le> vips_tracked_mem_highwater ?st'"
    unfolding hw using w by (simp add: word_le_nat_alt)
  from 1 2 3 4 show ?thesis by (simp add: consistent_def)
qed

lemma consistent_malloc:
  assumes c: "consistent st" and ok: "call_ok st (Malloc object n g)"
    and r: "vips_tracked_malloc False g st object n = Inr (p, st1)"
  shows "consistent st1"
proof (cases "g (n + 16) = 0")
  case True
  with r have "st1 = vips_warn ''vips_tracked'' ''out of memory --- size == %dMB''
      [Int_arg (size_mb (n + 16))]
      (vips_error ''vips_tracked'' ''out of memory --- size == %dMB''
         [Int_arg (size_mb (n + 16))] (st\<lparr>vips_tracked_mutex := True\<rparr>))"
    by (simp add: vips_tracked_malloc_def Let_def)
  then show ?thesis using c
    by (simp add: consistent_def live_bytes_def vips_warn_def vips_error_def)
next
  case False
  let ?b = "g (n + 16)" and ?t = "n + 16"
  from ok False have d: "disjoint_blocks ((?b, ?t) # g_blocks st)" by simp
  from c have h: "list_all (\<lambda>(b, n). memory st b = n) (g_blocks st)"
    and m: "unat (vips_tracked_mem st) = live_bytes st"
    and w: "vips_tracked_mem st \<le> vips_tracked_mem_highwater st"
    by (simp_all add: consistent_def)
  from r False have g1: "g_blocks st1 = (?b, ?t) # g_blocks st"
    and m1: "memory st1 = (memory st)(?b := ?t)"
    and t1: "vips_tracked_mem st1 = vips_tracked_mem st + ?t"
    and h1: "vips_tracked_mem_highwater st1 =
        (if vips_tracked_mem_highwater st < vips_tracked_mem st + ?t
         then vips_tracked_mem st + ?t else vips_tracked_mem_highwater st)"
    by (auto simp: vips_tracked_malloc_def g_signal_connect_def Let_def)
  have fresh: "?b \<notin> fst ` set (g_blocks st)" by (rule disjoint_fresh [OF d])
  have 1: "disjoint_blocks (g_blocks st1)" unfolding g1 by (rule d)
  have "memory st b = k \<and> b \<noteq> ?b" if "(b, k) \<in> set (g_blocks st)" for b k
    using that h fresh by (force simp: list_all_iff)
  then have 2: "list_all (\<lambda>(b, n). memory st1 b = n) (g_blocks st1)"
    unfolding g1 m1 by (auto simp: list_all_iff)
  from disjoint_sum_bound [OF d] have "unat ?t + live_bytes st < 2 ^ 64"
    by (simp add: live_bytes_def)
  then have "unat (vips_tracked_mem st) + unat ?t < 2 ^ 64" using m by simp
  then have "unat (vips_tracked_mem st + ?t) = unat (vips_tracked_mem st) + unat ?t"
    using unat_add_lem [of "vips_tracked_mem st" ?t] by simp
  then have 3: "unat (vips_tracked_mem st1) = live_bytes st1"
    unfolding t1 using m by (simp add: live_bytes_def g1)
  have 4: "vips_tracked_mem st1 \<le> vips_tracked_mem_highwater st1"
    unfolding t1 h1 by (simp add: not_less)
  from 1 2 3 4 show ?thesis by (simp add: consistent_def)
qed

lemma malloc_highwater:
  "vips_tracked_malloc DEBUG g st object n = Inr (p, st1) \<Longrightarrow>
   vips_tracked_mem_highwater st \<le> vips_tracked_mem_highwater st1"
  by (auto simp: vdefs Let_def split: if_splits)

lemma free_highwater:
  "vips_tracked_mem_highwater (vips_tracked_free st p) = vips_tracked_mem_highwater st"
  by (simp add: vips_tracked_free_def vips_warn_def g_free_def Let_def)

lemma run_highwater:
  "run DEBUG st cs = Inr (ps, st') \<Longrightarrow>
   vips_tracked_mem_highwater st \<le> vips_tracked_mem_highwater st'"
proof (induction cs arbitrary: st ps)
  case Nil
  then show ?case by simp
next
  case (Cons c cs)
  show ?case
  proof (cases c)
    case (Malloc object n g)
    with Cons.prems obtain p st1 ps1 where
      m: "vips_tracked_malloc DEBUG g st object n = Inr (p, st1)" and
      t: "run DEBUG st1 cs = Inr (ps1, st')"
      by (auto split: sum.splits prod.splits)
    from malloc_highwater [OF m] Cons.IH [OF t] show ?thesis by simp
  next
    case (Free p)
    with Cons.prems have "run DEBUG (vips_tracked_free st p) cs = Inr (ps, st')" by simp
    from Cons.IH [OF this] show ?thesis by (simp add: free_highwater)
  qed
qed

lemma run_append:
  "run DEBUG st (cs @ ds) = Inr (ps, st') \<Longrightarrow>
   \<exists>ps1 st1 ps2. run DEBUG st cs = Inr (ps1, st1) \<and> run DEBUG st1 ds = Inr (ps2, st')"
proof (induction cs arbitrary: st ps)
  case Nil
  then show ?case by simp
next
  case (Cons c cs)
  show ?case
  proof (cases c)
    case (Malloc object n g)
    with Cons.prems obtain p st1 ps1 where
      m: "vips_tracked_malloc DEBUG g st object n = Inr (p, st1)" and
      t: "run DEBUG st1 (cs @ ds) = Inr (ps1, st')"
      by (auto split: sum.splits prod.splits)
    from Cons.IH [OF t] m Malloc show ?thesis by auto
  next
    case (Free p)
    with Cons.prems have "run DEBUG (vips_tracked_free st p) (cs @ ds) = Inr (ps, st')" by simp
    from Cons.IH [OF this] Free show ?thesis by simp
  qed
qed

lemma proper_consistent:
  "consistent st \<Longrightarrow> proper st cs \<Longrightarrow> run False st (take k cs) = Inr (ps, st') \<Longrightarrow>
   consistent st'"
proof (induction cs arbitrary: st k ps)
  case Nil
  then show ?case by simp
next
  case (Cons c cs)
  show ?case
  proof (cases k)
    case 0
    with Cons.prems show ?thesis by simp
  next
    case (Suc j)
    show ?thesis
    proof (cases c)
      case (Malloc object n g)
      with Cons.prems Suc obtain p st1 ps1 where
        m: "vips_tracked_malloc False g st object n = Inr (p, st1)" and
        t: "run False st1 (take j cs) = Inr (ps1, st')"
        by (auto split: sum.splits prod.splits)
      from Cons.prems(2) Malloc m have ok: "call_ok st (Malloc object n g)" and pr: "proper st1 cs"
        by simp_all
      from consistent_malloc [OF Cons.prems(1) ok m] have "consistent st1" .
      from Cons.IH [OF this pr t] show ?thesis .
    next
      case (Free p)
      with Cons.prems Suc have t: "run False (vips_tracked_free st p) (take j cs) = Inr (ps, st')"
        and ok: "call_ok st (Free p)" and pr: "proper (vips_tracked_free st p) cs"
        by simp_all
      from consistent_free [OF Cons.prems(1) ok] have "consistent (vips_tracked_free st p)" .
      from Cons.IH [OF this pr t] show ?thesis .
    qed
  qed
qed

lemma size_mb_megabytes: "unat sz < 2 ^ 51 \<Longrightarrow> size_mb sz = megabytes sz"
proof -
  assume "unat sz < 2 ^ 51"
  then have "unat sz div 1048576 < 2147483648" by simp
  then show ?thesis by (simp add: size_mb_def megabytes_def)
qed

lemma malloc_exhausted:
  assumes "g (n + 16) = 0"
  shows "vips_tracked_malloc False g st object n =
           Inr (0, st\<lparr>vips_tracked_mutex := True,
             error_buffer := error_buffer st @
               [(''vips_tracked'', ''out of memory --- size == %dMB'', [Int_arg (size_mb (n + 16))])],
             warnings := warnings st @
               [(''vips_tracked'', ''out of memory --- size == %dMB'', [Int_arg (size_mb (n + 16))])]\<rparr>)"
    and "vips_tracked_malloc True g st object n = Inl Assertion_failed"
  using assms by (simp_all add: vips_tracked_malloc_def vips_error_def vips_warn_def Let_def)

lemma run_handlers_none:
  "list_all (\<lambda>(obj, cb, buf). obj \<noteq> object) hs \<Longrightarrow> run_handlers st object hs = st"
  by (induction hs arbitrary: st) auto

lemma run_handlers_append:
  "run_handlers st object (hs @ ks) = run_handlers (run_handlers st object hs) object ks"
  by (induction hs arbitrary: st) auto

lemma filter_none: "list_all (\<lambda>(obj, cb, buf). obj \<noteq> object) hs \<Longrightarrow>
  filter (\<lambda>(obj, cb, buf). obj \<noteq> object) hs = hs"
  by (induction hs) auto

lemma free_handlers: "handlers (vips_tracked_free st p) = handlers st"
  by (simp add: vips_tracked_free_def vips_warn_def g_free_def Let_def)

lemma free_handlers_update:
  "vips_tracked_free (st\<lparr>handlers := hs\<rparr>) p = (vips_tracked_free st p)\<lparr>handlers := hs\<rparr>"
  by (simp add: vips_tracked_free_def vips_warn_def g_free_def Let_def)

lemma run_handlers_snoc_tracked:
  "run_handlers st object (hs @ [(object, Vips_tracked_cb, p)]) =
   vips_tracked_free (run_handlers st object hs) p"
  by (simp add: run_handlers_append vips_tracked_cb_def)

text \<open>
  Where the padded sizes and their number fit the counters, a run of allocations that
  all returned a non-null pointer leaves the counters at the sum of the padded sizes and
  at the number of allocations.
\<close>

lemma mallocs_total:
  assumes "vips_tracked_get_mem st = 0" and "vips_tracked_get_allocs st = 0"
    and "run DEBUG st (map (\<lambda>(object, n, g). Malloc object n g) reqs) = Inr (ps, st')"
    and "\<forall>p \<in> set ps. p \<noteq> 0"
  shows "vips_tracked_get_mem st' = (\<Sum>(object, n, g)\<leftarrow>reqs. n + 16) \<and>
         vips_tracked_get_allocs st' = of_nat (length reqs) \<and>
         ((\<Sum>(object, n, g)\<leftarrow>reqs. unat n + 16) < 2 ^ 64 \<longrightarrow>
            unat (vips_tracked_get_mem st') = (\<Sum>(object, n, g)\<leftarrow>reqs. unat n + 16)) \<and>
         (length reqs < 2 ^ 31 \<longrightarrow> sint (vips_tracked_get_allocs st') = int (length reqs))"
  using run_mallocs [OF assms(3,4)] assms(1,2)
  by (simp add: vips_tracked_get_mem_def vips_tracked_get_allocs_def unat_padded_sum sint_count)


subsection \<open>Allocations without frees\<close>

text \<open>
  C1. The claim is that after successful allocations of sizes \<open>s_1..s_N\<close> from the
  initial state the tracked bytes are the sum of the \<open>s_i + 16\<close> and the count is \<open>N\<close>.
  The code adds 16 to the size without a check: one allocation of \<open>SIZE_MAX\<close> bytes,
  answered with a block of the 15 bytes the wrapped sum asks for, returns a non-null
  pointer and leaves 15 tracked bytes, where \<open>SIZE_MAX + 16\<close> is \<open>2 ^ 64 + 15\<close>.
\<close>

theorem tracked_bytes_after_size_max:
  "run False vips_init [Malloc 0 18446744073709551615 (block_at 4096)] =
     Inr ([4112], vips_init\<lparr>vips_tracked_allocs := 1, vips_tracked_mem := 15,
       vips_tracked_mem_highwater := 15, vips_tracked_mutex := True,
       memory := (memory vips_init)(4096 := 15), g_blocks := [(4096, 15)]\<rparr>) \<and>
   (4112 :: ptr) \<noteq> 0 \<and>
   unat (vips_tracked_get_mem (vips_init\<lparr>vips_tracked_allocs := 1, vips_tracked_mem := 15,
       vips_tracked_mem_highwater := 15, vips_tracked_mutex := True,
       memory := (memory vips_init)(4096 := 15), g_blocks := [(4096, 15)]\<rparr>)) = 15 \<and>
   unat (18446744073709551615 :: size_t) + 16 = 18446744073709551631"
proof -
  have w: "(18446744073709551615 :: size_t) + 16 = 15" by simp
  have "vips_tracked_malloc False (block_at 4096) vips_init 0 18446744073709551615 =
     Inr (4112, vips_init\<lparr>vips_tracked_allocs := 1, vips_tracked_mem := 15,
       vips_tracked_mem_highwater := 15, vips_tracked_mutex := True,
       memory := (memory vips_init)(4096 := 15), g_blocks := [(4096, 15)]\<rparr>)"
    unfolding vips_tracked_malloc_def Let_def w
    by (simp add: block_at_def vips_init_def)
  then show ?thesis
    by (simp add: vips_tracked_get_mem_def vips_init_def)
qed

subsection \<open>An allocation and its free\<close>

text \<open>
  C2. When an allocation without owner returns a non-null pointer, it has added the
  padded size to the byte counter and one to the count and has stored the padded size in
  the header, 16 bytes below the pointer; freeing the pointer at once reads that header
  and brings \<open>vips_tracked_get_mem\<close> and \<open>vips_tracked_get_allocs\<close> back to the values
  they had before the allocation.
\<close>

theorem malloc_then_free_restores:
  assumes "vips_tracked_malloc DEBUG g st 0 n = Inr (p, st1)" and "p \<noteq> 0"
  shows "vips_tracked_get_mem st1 = vips_tracked_get_mem st + (n + 16) \<and>
         vips_tracked_get_allocs st1 = vips_tracked_get_allocs st + 1 \<and>
         memory st1 (p - 16) = n + 16 \<and>
         vips_tracked_get_mem (vips_tracked_free st1 p) = vips_tracked_get_mem st \<and>
         vips_tracked_get_allocs (vips_tracked_free st1 p) = vips_tracked_get_allocs st"
  using assms
  by (auto simp: vdefs Let_def split: if_splits)

theorem malloc_then_free_restores_witness:
  "vips_tracked_malloc False (block_at 4096) vips_init 0 100 =
     Inr (4112, vips_init\<lparr>vips_tracked_allocs := 1, vips_tracked_mem := 116,
       vips_tracked_mem_highwater := 116, vips_tracked_mutex := True,
       memory := (memory vips_init)(4096 := 116), g_blocks := [(4096, 116)]\<rparr>) \<and>
   (4112 :: ptr) \<noteq> 0 \<and>
   vips_tracked_get_mem (vips_tracked_free (vips_init\<lparr>vips_tracked_allocs := 1,
       vips_tracked_mem := 116, vips_tracked_mem_highwater := 116, vips_tracked_mutex := True,
       memory := (memory vips_init)(4096 := 116), g_blocks := [(4096, 116)]\<rparr>) 4112) = 0 \<and>
   vips_tracked_get_allocs (vips_tracked_free (vips_init\<lparr>vips_tracked_allocs := 1,
       vips_tracked_mem := 116, vips_tracked_mem_highwater := 116, vips_tracked_mutex := True,
       memory := (memory vips_init)(4096 := 116), g_blocks := [(4096, 116)]\<rparr>) 4112) = 0"
proof -
  have e: "vips_tracked_malloc False (block_at 4096) vips_init 0 100 =
     Inr (4112, vips_init\<lparr>vips_tracked_allocs := 1, vips_tracked_mem := 116,
       vips_tracked_mem_highwater := 116, vips_tracked_mutex := True,
       memory := (memory vips_init)(4096 := 116), g_blocks := [(4096, 116)]\<rparr>)"
    by (simp add: vips_tracked_malloc_def block_at_def vips_init_def Let_def)
  have n: "(4112 :: ptr) \<noteq> 0" by simp
  show ?thesis using malloc_then_free_restores [OF e n] e
    by (simp add: vips_init_def vips_tracked_get_mem_def vips_tracked_get_allocs_def)
qed

subsection \<open>A size that overflows the padding\<close>

text \<open>
  C4. The claim is that a size above \<open>SIZE_MAX - 16\<close> is reported as a failure. The code
  adds 16 without a check: for the size \<open>SIZE_MAX\<close> the sum wraps to 15, the byte
  allocator is asked for 15 bytes, and when it has them the call returns a non-null
  pointer, 16 bytes above the base of a block of 15, and counts 15 bytes; nothing is
  reported.
\<close>

theorem malloc_size_max_wraps:
  "vips_tracked_malloc False (block_at 65536) vips_init 0 18446744073709551615 =
     Inr (65552, vips_init\<lparr>vips_tracked_allocs := 1, vips_tracked_mem := 15,
       vips_tracked_mem_highwater := 15, vips_tracked_mutex := True,
       memory := (memory vips_init)(65536 := 15), g_blocks := [(65536, 15)]\<rparr>)"
proof -
  have w: "(18446744073709551615 :: size_t) + 16 = 15" by simp
  show ?thesis
    unfolding vips_tracked_malloc_def Let_def w
    by (simp add: block_at_def vips_init_def)
qed

subsection \<open>Freeing too much\<close>

text \<open>
  C5. The claim is that a free which takes the byte counter below zero reports
  "too much free" and goes on. The code goes on, but the counter is unsigned and the
  test \<open>vips_tracked_mem < 0\<close> never holds: after an allocation of 8 bytes and two frees
  of its pointer the counter has wrapped to \<open>2 ^ 64 - 24\<close>, the count is \<open>- 1\<close>, the
  block is released, and the only warning is the one about the count.
\<close>

theorem over_free_is_not_reported:
  "run False vips_init [Malloc 0 8 (block_at 8192), Free 8208, Free 8208] =
     Inr ([8208], vips_init\<lparr>vips_tracked_allocs := 4294967295,
       vips_tracked_mem := 18446744073709551592,
       vips_tracked_mem_highwater := 24, vips_tracked_mutex := True,
       memory := (memory vips_init)(8192 := 24),
       warnings := [(''vips_tracked'', ''%s'', [Str_arg ''vips_free: too many frees''])]\<rparr>)"
  by (simp add: vips_tracked_malloc_def vips_tracked_free_def vips_init_def Let_def g_free_def
      block_at_def vips_warn_def keeps_def)

subsection \<open>Freeing twice\<close>

text \<open>
  C6. With no allocation counted, after an allocation that returned a non-null pointer
  the first free of the pointer reports nothing, the second free reports
  "too many frees" (and nothing else), and \<open>vips_tracked_get_allocs\<close> is then \<open>- 1\<close>.
\<close>

theorem double_free_too_many_frees:
  assumes "vips_tracked_get_allocs st = 0"
    and "vips_tracked_malloc DEBUG g st object n = Inr (p, st1)" and "p \<noteq> 0"
  shows "warnings (vips_tracked_free st1 p) = warnings st \<and>
         warnings (vips_tracked_free (vips_tracked_free st1 p) p) =
           warnings st @ [(''vips_tracked'', ''%s'', [Str_arg ''vips_free: too many frees''])] \<and>
         sint (vips_tracked_get_allocs (vips_tracked_free (vips_tracked_free st1 p) p)) = - 1"
  using assms
  by (auto simp: vdefs Let_def split: if_splits)

theorem double_free_too_many_frees_witness:
  "vips_tracked_get_allocs vips_init = 0 \<and>
   vips_tracked_malloc False (block_at 16384) vips_init 0 1 =
     Inr (16400, vips_init\<lparr>vips_tracked_allocs := 1, vips_tracked_mem := 17,
       vips_tracked_mem_highwater := 17, vips_tracked_mutex := True,
       memory := (memory vips_init)(16384 := 17), g_blocks := [(16384, 17)]\<rparr>) \<and>
   (16400 :: ptr) \<noteq> 0 \<and>
   warnings (vips_tracked_free (vips_tracked_free (vips_init\<lparr>vips_tracked_allocs := 1,
       vips_tracked_mem := 17, vips_tracked_mem_highwater := 17, vips_tracked_mutex := True,
       memory := (memory vips_init)(16384 := 17), g_blocks := [(16384, 17)]\<rparr>) 16400) 16400) =
     [(''vips_tracked'', ''%s'', [Str_arg ''vips_free: too many frees''])] \<and>
   sint (vips_tracked_get_allocs (vips_tracked_free (vips_tracked_free (vips_init\<lparr>
       vips_tracked_allocs := 1, vips_tracked_mem := 17, vips_tracked_mem_highwater := 17,
       vips_tracked_mutex := True, memory := (memory vips_init)(16384 := 17),
       g_blocks := [(16384, 17)]\<rparr>) 16400) 16400)) = - 1"
proof -
  have z: "vips_tracked_get_allocs vips_init = 0"
    by (simp add: vips_tracked_get_allocs_def vips_init_def)
  have e: "vips_tracked_malloc False (block_at 16384) vips_init 0 1 =
     Inr (16400, vips_init\<lparr>vips_tracked_allocs := 1, vips_tracked_mem := 17,
       vips_tracked_mem_highwater := 17, vips_tracked_mutex := True,
       memory := (memory vips_init)(16384 := 17), g_blocks := [(16384, 17)]\<rparr>)"
    by (simp add: vips_tracked_malloc_def block_at_def vips_init_def Let_def)
  have n: "(16400 :: ptr) \<noteq> 0" by simp
  have w: "warnings vips_init = []" by (simp add: vips_init_def)
  show ?thesis using double_free_too_many_frees [OF z e n] z e w by simp
qed

subsection \<open>The unsigned byte counter\<close>

text \<open>
  C10, as the claim states it, fails in its figure: after an allocation of 1000 bytes and
  two frees of its pointer, with a byte allocator that leaves 1065 in the first word of
  the block it got back, the second free reads 1065 from the header and the counter is
  \<open>2 ^ 64 - 1065\<close>, not \<open>2 ^ 64 - (1000 + 16)\<close>.
\<close>

theorem over_free_figure_overwritten:
  "run False (vips_init\<lparr>g_free_leaves := overwrites 1065\<rparr>)
     [Malloc 0 1000 (block_at 20480), Free 20496, Free 20496] =
     Inr ([20496], vips_init\<lparr>g_free_leaves := overwrites 1065,
       vips_tracked_allocs := 4294967295, vips_tracked_mem := 18446744073709550551,
       vips_tracked_mem_highwater := 1016, vips_tracked_mutex := True,
       memory := (memory vips_init)(20480 := 1065),
       warnings := [(''vips_tracked'', ''%s'', [Str_arg ''vips_free: too many frees''])]\<rparr>) \<and>
   unat (vips_tracked_get_mem (vips_init\<lparr>g_free_leaves := overwrites 1065,
       vips_tracked_allocs := 4294967295, vips_tracked_mem := 18446744073709550551,
       vips_tracked_mem_highwater := 1016, vips_tracked_mutex := True,
       memory := (memory vips_init)(20480 := 1065),
       warnings := [(''vips_tracked'', ''%s'', [Str_arg ''vips_free: too many frees''])]\<rparr>))
     \<noteq> 2 ^ 64 - (1000 + 16)"
  by (simp add: vips_tracked_malloc_def vips_tracked_free_def vips_init_def Let_def g_free_def
      block_at_def vips_warn_def overwrites_def vips_tracked_get_mem_def)

text \<open>
  C10, amended. The byte counter is an unsigned \<open>size_t\<close>. A free never reports
  "too much free": the only warning it can add is the one about the count. A free of
  more bytes than are counted leaves the counter at the difference plus \<open>2 ^ 64\<close>, not
  below zero. From a state whose byte counter and high-water mark are zero, after an
  allocation of \<open>n\<close> bytes that returned a non-null pointer and two frees of that
  pointer, the second free reads from the header the word \<open>v\<close> that the byte allocator
  left there (the padded size if it left the bytes as they were), and the counter is
  \<open>- v\<close> in \<open>size_t\<close>: that is \<open>2 ^ 64 - v\<close> unless \<open>v\<close> is zero, and it is above the
  high-water mark exactly when \<open>v\<close> is not zero and \<open>v\<close> plus the padded size is below
  \<open>2 ^ 64\<close>.
\<close>

theorem over_free_wraps_unsigned:
  "warnings (vips_tracked_free st p) =
     warnings st @ (if sint (vips_tracked_get_allocs st) \<le> 0
                    then [(''vips_tracked'', ''%s'', [Str_arg ''vips_free: too many frees''])]
                    else []) \<and>
   unat (vips_tracked_get_mem (vips_tracked_free st p)) =
     (if unat (memory st (p - 16)) \<le> unat (vips_tracked_get_mem st)
      then unat (vips_tracked_get_mem st) - unat (memory st (p - 16))
      else unat (vips_tracked_get_mem st) + 2 ^ 64 - unat (memory st (p - 16))) \<and>
   (vips_tracked_get_mem st0 = 0 \<and> vips_tracked_get_mem_highwater st0 = 0 \<and>
    vips_tracked_malloc DEBUG g st0 object n = Inr (q, st1) \<and> q \<noteq> 0 \<and>
    v = g_free_leaves st0 (q - 16) (n + 16) \<longrightarrow>
      memory (vips_tracked_free st1 q) (q - 16) = v \<and>
      (g_free_leaves st0 = keeps \<longrightarrow> v = n + 16) \<and>
      vips_tracked_get_mem (vips_tracked_free (vips_tracked_free st1 q) q) = - v \<and>
      unat (vips_tracked_get_mem (vips_tracked_free (vips_tracked_free st1 q) q)) =
        (if v = 0 then 0 else 2 ^ 64 - unat v) \<and>
      (vips_tracked_get_mem_highwater (vips_tracked_free (vips_tracked_free st1 q) q) <
       vips_tracked_get_mem (vips_tracked_free (vips_tracked_free st1 q) q) \<longleftrightarrow>
         v \<noteq> 0 \<and> unat v + unat (n + 16) < 2 ^ 64))"
proof (intro conjI impI)
  show "warnings (vips_tracked_free st p) =
     warnings st @ (if sint (vips_tracked_get_allocs st) \<le> 0
                    then [(''vips_tracked'', ''%s'', [Str_arg ''vips_free: too many frees''])]
                    else [])"
    by (simp add: free_warnings vips_tracked_get_allocs_def)
  show "unat (vips_tracked_get_mem (vips_tracked_free st p)) =
     (if unat (memory st (p - 16)) \<le> unat (vips_tracked_get_mem st)
      then unat (vips_tracked_get_mem st) - unat (memory st (p - 16))
      else unat (vips_tracked_get_mem st) + 2 ^ 64 - unat (memory st (p - 16)))"
    by (simp add: vips_tracked_get_mem_def free_mem unat_sub_if_size word_size)
next
  assume a: "vips_tracked_get_mem st0 = 0 \<and> vips_tracked_get_mem_highwater st0 = 0 \<and>
    vips_tracked_malloc DEBUG g st0 object n = Inr (q, st1) \<and> q \<noteq> 0 \<and>
    v = g_free_leaves st0 (q - 16) (n + 16)"
  let ?st2 = "vips_tracked_free st1 q"
  let ?st3 = "vips_tracked_free ?st2 q"
  from a show r: "memory ?st2 (q - 16) = v"
    by (auto simp: vdefs Let_def split: if_splits)
  from a have m2: "vips_tracked_mem ?st2 = 0"
    by (auto simp: vdefs Let_def split: if_splits)
  have m: "vips_tracked_mem ?st3 = - v"
    by (simp add: free_mem [of ?st2 q] m2 r)
  from a have h: "vips_tracked_mem_highwater ?st3 = n + 16"
    by (auto simp: vdefs Let_def word_gt_0 split: if_splits)
  show "vips_tracked_get_mem ?st3 = - v"
    using m by (simp add: vips_tracked_get_mem_def)
  {
    assume "g_free_leaves st0 = keeps"
    with a show "v = n + 16" by (simp add: keeps_def)
  }
  have neg: "unat (- v) = (if v = 0 then 0 else 2 ^ 64 - unat v)"
  proof (cases "v = 0")
    case True
    then show ?thesis by simp
  next
    case False
    then have "0 < unat v" by (simp add: unat_gt_0)
    then have "unat (- v) = 2 ^ 64 - unat v" by (rule unat_neg)
    with False show ?thesis by simp
  qed
  show "unat (vips_tracked_get_mem ?st3) = (if v = 0 then 0 else 2 ^ 64 - unat v)"
    using m neg by (simp add: vips_tracked_get_mem_def)
  have "n + 16 < - v \<longleftrightarrow> v \<noteq> 0 \<and> unat v + unat (n + 16) < 2 ^ 64"
  proof (cases "v = 0")
    case True
    then show ?thesis by simp
  next
    case False
    then have "0 < unat v" by (simp add: unat_gt_0)
    moreover have "unat v < 2 ^ 64" using unsigned_less [of v] by simp
    moreover have "unat (- v) = 2 ^ 64 - unat v" using neg False by simp
    ultimately have "unat (n + 16) < unat (- v) \<longleftrightarrow> unat v + unat (n + 16) < 2 ^ 64"
      by arith
    with False show ?thesis by (simp add: word_less_nat_alt)
  qed
  then show "vips_tracked_get_mem_highwater ?st3 < vips_tracked_get_mem ?st3 \<longleftrightarrow>
      v \<noteq> 0 \<and> unat v + unat (n + 16) < 2 ^ 64"
    using m h by (simp add: vips_tracked_get_mem_def vips_tracked_get_mem_highwater_def)
qed

theorem over_free_wraps_unsigned_witness:
  "vips_tracked_get_mem vips_init = 0 \<and> vips_tracked_get_mem_highwater vips_init = 0 \<and>
   vips_tracked_malloc False (block_at 20480) vips_init 0 1000 =
     Inr (20496, vips_init\<lparr>vips_tracked_allocs := 1, vips_tracked_mem := 1016,
       vips_tracked_mem_highwater := 1016, vips_tracked_mutex := True,
       memory := (memory vips_init)(20480 := 1016), g_blocks := [(20480, 1016)]\<rparr>) \<and>
   (20496 :: ptr) \<noteq> 0 \<and> (1016 :: size_t) = g_free_leaves vips_init (20496 - 16) (1000 + 16) \<and>
   g_free_leaves vips_init = keeps \<and>
   (1016 :: size_t) \<noteq> 0 \<and> unat (1016 :: size_t) + unat (1000 + 16 :: size_t) < 2 ^ 64 \<and>
   unat (vips_tracked_get_mem (vips_tracked_free (vips_tracked_free (vips_init\<lparr>
       vips_tracked_allocs := 1, vips_tracked_mem := 1016, vips_tracked_mem_highwater := 1016,
       vips_tracked_mutex := True, memory := (memory vips_init)(20480 := 1016),
       g_blocks := [(20480, 1016)]\<rparr>) 20496) 20496)) = 2 ^ 64 - 1016 \<and>
   vips_tracked_get_mem_highwater (vips_tracked_free (vips_tracked_free (vips_init\<lparr>
       vips_tracked_allocs := 1, vips_tracked_mem := 1016, vips_tracked_mem_highwater := 1016,
       vips_tracked_mutex := True, memory := (memory vips_init)(20480 := 1016),
       g_blocks := [(20480, 1016)]\<rparr>) 20496) 20496) <
   vips_tracked_get_mem (vips_tracked_free (vips_tracked_free (vips_init\<lparr>
       vips_tracked_allocs := 1, vips_tracked_mem := 1016, vips_tracked_mem_highwater := 1016,
       vips_tracked_mutex := True, memory := (memory vips_init)(20480 := 1016),
       g_blocks := [(20480, 1016)]\<rparr>) 20496) 20496)"
proof -
  let ?S = "vips_init\<lparr>vips_tracked_allocs := 1, vips_tracked_mem := 1016,
       vips_tracked_mem_highwater := 1016, vips_tracked_mutex := True,
       memory := (memory vips_init)(20480 := 1016), g_blocks := [(20480, 1016)]\<rparr>"
  have z: "vips_tracked_get_mem vips_init = 0 \<and> vips_tracked_get_mem_highwater vips_init = 0"
    by (simp add: vips_tracked_get_mem_def vips_tracked_get_mem_highwater_def vips_init_def)
  have e: "vips_tracked_malloc False (block_at 20480) vips_init 0 1000 = Inr (20496, ?S)"
    by (simp add: vips_tracked_malloc_def block_at_def vips_init_def Let_def)
  have n: "(20496 :: ptr) \<noteq> 0" by simp
  have k: "g_free_leaves vips_init = keeps" by (simp add: vips_init_def)
  have v: "(1016 :: size_t) = g_free_leaves vips_init (20496 - 16) (1000 + 16)"
    by (simp add: k keeps_def)
  have b: "(1016 :: size_t) \<noteq> 0" "unat (1016 :: size_t) + unat (1000 + 16 :: size_t) < 2 ^ 64"
    by simp_all
  from over_free_wraps_unsigned
    [of vips_init 0 vips_init False "block_at 20480" 0 1000 20496 ?S 1016]
  have "unat (vips_tracked_get_mem (vips_tracked_free (vips_tracked_free ?S 20496) 20496)) =
           (if (1016 :: size_t) = 0 then 0 else 2 ^ 64 - unat (1016 :: size_t)) \<and>
        (vips_tracked_get_mem_highwater (vips_tracked_free (vips_tracked_free ?S 20496) 20496) <
         vips_tracked_get_mem (vips_tracked_free (vips_tracked_free ?S 20496) 20496) \<longleftrightarrow>
           (1016 :: size_t) \<noteq> 0 \<and> unat (1016 :: size_t) + unat (1000 + 16 :: size_t) < 2 ^ 64)"
    using z e n v by blast
  then have "unat (vips_tracked_get_mem (vips_tracked_free (vips_tracked_free ?S 20496) 20496)) =
           2 ^ 64 - 1016 \<and>
        vips_tracked_get_mem_highwater (vips_tracked_free (vips_tracked_free ?S 20496) 20496) <
         vips_tracked_get_mem (vips_tracked_free (vips_tracked_free ?S 20496) 20496)"
    using b by simp
  then show ?thesis using z e n v k b by blast
qed

subsection \<open>The high-water mark\<close>

text \<open>
  C3, as the claim states it, fails: after an allocation of 100 bytes and two frees of
  its pointer the byte counter has wrapped to \<open>2 ^ 64 - 116\<close> and the high-water mark is
  116, below it.
\<close>

theorem highwater_below_after_double_free:
  "run False vips_init [Malloc 0 100 (block_at 4096), Free 4112, Free 4112] =
     Inr ([4112], vips_init\<lparr>vips_tracked_allocs := 4294967295,
       vips_tracked_mem := 18446744073709551500,
       vips_tracked_mem_highwater := 116, vips_tracked_mutex := True,
       memory := (memory vips_init)(4096 := 116),
       warnings := [(''vips_tracked'', ''%s'', [Str_arg ''vips_free: too many frees''])]\<rparr>) \<and>
   \<not> vips_tracked_get_mem (vips_init\<lparr>vips_tracked_allocs := 4294967295,
       vips_tracked_mem := 18446744073709551500,
       vips_tracked_mem_highwater := 116, vips_tracked_mutex := True,
       memory := (memory vips_init)(4096 := 116),
       warnings := [(''vips_tracked'', ''%s'', [Str_arg ''vips_free: too many frees''])]\<rparr>)
     \<le> vips_tracked_get_mem_highwater (vips_init\<lparr>vips_tracked_allocs := 4294967295,
       vips_tracked_mem := 18446744073709551500,
       vips_tracked_mem_highwater := 116, vips_tracked_mutex := True,
       memory := (memory vips_init)(4096 := 116),
       warnings := [(''vips_tracked'', ''%s'', [Str_arg ''vips_free: too many frees''])]\<rparr>)"
  by (simp add: vips_tracked_malloc_def vips_tracked_free_def vips_init_def Let_def g_free_def
      block_at_def vips_warn_def vips_tracked_get_mem_def vips_tracked_get_mem_highwater_def
      keeps_def)

text \<open>
  C3, amended. Along every sequence of allocations and frees the high-water mark never
  decreases: of the states after \<open>j\<close> and after \<open>k \<ge> j\<close> calls the later has the
  mark at least as high. Along every proper sequence from a consistent state (each free
  releases a live tracked block, and the byte allocator hands out non-empty blocks that
  do not overlap and end inside the address space), after any number of calls the
  high-water mark is at least the byte counter.
\<close>

theorem highwater_monotone_and_bound:
  "(j \<le> k \<and> run DEBUG st (take j cs) = Inr (ps1, st1) \<and>
    run DEBUG st (take k cs) = Inr (ps2, st2) \<longrightarrow>
      vips_tracked_get_mem_highwater st1 \<le> vips_tracked_get_mem_highwater st2) \<and>
   (consistent st \<and> proper st cs \<and> run False st (take i cs) = Inr (ps, st') \<longrightarrow>
      vips_tracked_get_mem st' \<le> vips_tracked_get_mem_highwater st')"
proof (intro conjI impI)
  assume a: "j \<le> k \<and> run DEBUG st (take j cs) = Inr (ps1, st1) \<and>
    run DEBUG st (take k cs) = Inr (ps2, st2)"
  then have "take k cs = take j cs @ drop j (take k cs)"
    by (metis append_take_drop_id min.absorb1 take_take)
  with a have "run DEBUG st (take j cs @ drop j (take k cs)) = Inr (ps2, st2)" by simp
  from run_append [OF this] a obtain ps3 where
    "run DEBUG st1 (drop j (take k cs)) = Inr (ps3, st2)" by auto
  from run_highwater [OF this]
  show "vips_tracked_get_mem_highwater st1 \<le> vips_tracked_get_mem_highwater st2"
    by (simp add: vips_tracked_get_mem_highwater_def)
next
  assume "consistent st \<and> proper st cs \<and> run False st (take i cs) = Inr (ps, st')"
  then have "consistent st'" by (blast intro: proper_consistent)
  then show "vips_tracked_get_mem st' \<le> vips_tracked_get_mem_highwater st'"
    by (simp add: consistent_def vips_tracked_get_mem_def vips_tracked_get_mem_highwater_def)
qed

theorem highwater_monotone_and_bound_witness:
  "(1 :: nat) \<le> 3 \<and>
   run False vips_init (take 1 [Malloc 0 100 (block_at 4096), Malloc 0 50 (block_at 8192), Free 4112]) =
     Inr ([4112], vips_init\<lparr>vips_tracked_allocs := 1, vips_tracked_mem := 116,
       vips_tracked_mem_highwater := 116, vips_tracked_mutex := True,
       memory := (memory vips_init)(4096 := 116), g_blocks := [(4096, 116)]\<rparr>) \<and>
   run False vips_init (take 3 [Malloc 0 100 (block_at 4096), Malloc 0 50 (block_at 8192), Free 4112]) =
     Inr ([4112, 8208], vips_init\<lparr>vips_tracked_allocs := 1, vips_tracked_mem := 66,
       vips_tracked_mem_highwater := 182, vips_tracked_mutex := True,
       memory := (memory vips_init)(4096 := 116, 8192 := 66), g_blocks := [(8192, 66)]\<rparr>) \<and>
   consistent vips_init \<and>
   proper vips_init [Malloc 0 100 (block_at 4096), Malloc 0 50 (block_at 8192), Free 4112] \<and>
   vips_tracked_get_mem_highwater (vips_init\<lparr>vips_tracked_allocs := 1, vips_tracked_mem := 116,
       vips_tracked_mem_highwater := 116, vips_tracked_mutex := True,
       memory := (memory vips_init)(4096 := 116), g_blocks := [(4096, 116)]\<rparr>) \<le>
   vips_tracked_get_mem_highwater (vips_init\<lparr>vips_tracked_allocs := 1, vips_tracked_mem := 66,
       vips_tracked_mem_highwater := 182, vips_tracked_mutex := True,
       memory := (memory vips_init)(4096 := 116, 8192 := 66), g_blocks := [(8192, 66)]\<rparr>) \<and>
   vips_tracked_get_mem (vips_init\<lparr>vips_tracked_allocs := 1, vips_tracked_mem := 66,
       vips_tracked_mem_highwater := 182, vips_tracked_mutex := True,
       memory := (memory vips_init)(4096 := 116, 8192 := 66), g_blocks := [(8192, 66)]\<rparr>) \<le>
   vips_tracked_get_mem_highwater (vips_init\<lparr>vips_tracked_allocs := 1, vips_tracked_mem := 66,
       vips_tracked_mem_highwater := 182, vips_tracked_mutex := True,
       memory := (memory vips_init)(4096 := 116, 8192 := 66), g_blocks := [(8192, 66)]\<rparr>)"
proof -
  let ?cs = "[Malloc 0 100 (block_at 4096), Malloc 0 50 (block_at 8192), Free 4112]"
  let ?S1 = "vips_init\<lparr>vips_tracked_allocs := 1, vips_tracked_mem := 116,
       vips_tracked_mem_highwater := 116, vips_tracked_mutex := True,
       memory := (memory vips_init)(4096 := 116), g_blocks := [(4096, 116)]\<rparr>"
  let ?S3 = "vips_init\<lparr>vips_tracked_allocs := 1, vips_tracked_mem := 66,
       vips_tracked_mem_highwater := 182, vips_tracked_mutex := True,
       memory := (memory vips_init)(4096 := 116, 8192 := 66), g_blocks := [(8192, 66)]\<rparr>"
  have j: "(1 :: nat) \<le> 3" by simp
  have r1: "run False vips_init (take 1 ?cs) = Inr ([4112], ?S1)"
    by (simp add: vips_tracked_malloc_def block_at_def vips_init_def Let_def)
  have r3: "run False vips_init (take 3 ?cs) = Inr ([4112, 8208], ?S3)"
    by (simp add: vips_tracked_malloc_def vips_tracked_free_def g_free_def block_at_def
        vips_init_def Let_def keeps_def fun_upd_twist)
  have c: "consistent vips_init"
    by (simp add: consistent_def vips_init_def live_bytes_def)
  have p: "proper vips_init ?cs"
    by (simp add: vips_tracked_malloc_def vips_tracked_free_def g_free_def block_at_def
        vips_init_def Let_def keeps_def fun_upd_twist)
  from highwater_monotone_and_bound [of 1 3 False vips_init ?cs "[4112]" ?S1 "[4112, 8208]" ?S3 3 "[4112, 8208]" ?S3]
    j r1 r3 c p
  have "vips_tracked_get_mem_highwater ?S1 \<le> vips_tracked_get_mem_highwater ?S3 \<and>
        vips_tracked_get_mem ?S3 \<le> vips_tracked_get_mem_highwater ?S3"
    by blast
  with j r1 r3 c p show ?thesis by blast
qed

subsection \<open>Exhaustion of the byte allocator\<close>

text \<open>
  C7. The claim is that, when the byte allocator is exhausted, the failure is reported on
  the error channel and on the warning channel, each report including the requested size
  in megabytes, that the result is null and that a normal build does not abort. The
  code does all of that but for the figure: it converts the quotient to \<open>int\<close>, and for
  a refused request of \<open>2 ^ 60\<close> bytes the quotient \<open>2 ^ 40\<close> does not fit, so both
  reports read \<open>-2147483648\<close> megabytes where the size is 1099511627776 megabytes.
\<close>

theorem out_of_memory_figure_overflows:
  "vips_tracked_malloc False exhausted vips_init 0 1152921504606846976 =
     Inr (0, vips_init\<lparr>vips_tracked_mutex := True,
       error_buffer :=
         [(''vips_tracked'', ''out of memory --- size == %dMB'', [Int_arg (- 2147483648)])],
       warnings :=
         [(''vips_tracked'', ''out of memory --- size == %dMB'', [Int_arg (- 2147483648)])]\<rparr>) \<and>
   megabytes 1152921504606846976 = 1099511627776 \<and>
   \<not> reports_size 1152921504606846976
       (''vips_tracked'', ''out of memory --- size == %dMB'', [Int_arg (- 2147483648)])"
  by (simp add: vips_tracked_malloc_def vips_error_def vips_warn_def Let_def exhausted_def
      vips_init_def size_mb_def reports_size_def megabytes_def)

subsection \<open>Allocation with an owner\<close>

text \<open>
  C8. For an allocation with an owner: when the byte allocator hands out a block, one
  connection of \<open>vips_tracked_cb\<close> with the returned pointer is added to the owner, and
  destroying the owner runs the connections it had before and then frees that pointer,
  once; if the owner had no connection before, the state after destroying it is that
  of one \<open>vips_tracked_free\<close> with the connection gone, so the count and the byte
  counter are back at their values before the allocation, and destroying it again
  changes nothing. When the byte allocator answers \<open>NULL\<close>, the call returns \<open>NULL\<close>
  and no connection is added.
\<close>

theorem owner_callback:
  assumes "vips_tracked_malloc DEBUG g st object n = Inr (p, st1)" and "object \<noteq> 0"
  shows "(g (n + 16) \<noteq> 0 \<longrightarrow>
            handlers st1 = handlers st @ [(object, Vips_tracked_cb, p)] \<and>
            object_destroy st1 object =
              vips_tracked_free
                (run_handlers
                   (st1\<lparr>handlers := filter (\<lambda>(obj, cb, buf). obj \<noteq> object) (handlers st)\<rparr>)
                   object (handlers st)) p \<and>
            (list_all (\<lambda>(obj, cb, buf). obj \<noteq> object) (handlers st) \<longrightarrow>
               object_destroy st1 object = (vips_tracked_free st1 p)\<lparr>handlers := handlers st\<rparr> \<and>
               vips_tracked_get_allocs (object_destroy st1 object) = vips_tracked_get_allocs st \<and>
               vips_tracked_get_mem (object_destroy st1 object) = vips_tracked_get_mem st \<and>
               object_destroy (object_destroy st1 object) object = object_destroy st1 object)) \<and>
         (g (n + 16) = 0 \<longrightarrow> p = 0 \<and> handlers st1 = handlers st)"
proof (intro conjI impI)
  assume f: "g (n + 16) = 0"
  with assms show "p = 0" "handlers st1 = handlers st"
    by (auto simp: vdefs Let_def split: if_splits)
next
  assume s: "g (n + 16) \<noteq> 0"
  with assms show h: "handlers st1 = handlers st @ [(object, Vips_tracked_cb, p)]"
    by (auto simp: vdefs Let_def split: if_splits)
  have fa: "filter (\<lambda>(obj, cb, buf). obj \<noteq> object) (handlers st1) =
      filter (\<lambda>(obj, cb, buf). obj \<noteq> object) (handlers st)"
    unfolding h by simp
  show "object_destroy st1 object =
      vips_tracked_free
        (run_handlers
           (st1\<lparr>handlers := filter (\<lambda>(obj, cb, buf). obj \<noteq> object) (handlers st)\<rparr>)
           object (handlers st)) p"
    unfolding object_destroy_def fa
    unfolding h run_handlers_snoc_tracked ..
  assume none: "list_all (\<lambda>(obj, cb, buf). obj \<noteq> object) (handlers st)"
  have fl: "filter (\<lambda>(obj, cb, buf). obj \<noteq> object) (handlers st1) = handlers st"
    unfolding h using none by (simp add: filter_none)
  show d: "object_destroy st1 object = (vips_tracked_free st1 p)\<lparr>handlers := handlers st\<rparr>"
    unfolding object_destroy_def fl
    unfolding h run_handlers_append run_handlers_none [OF none]
    by (simp add: vips_tracked_cb_def free_handlers_update)
  from s assms have c: "vips_tracked_allocs (vips_tracked_free st1 p) = vips_tracked_allocs st"
    "vips_tracked_mem (vips_tracked_free st1 p) = vips_tracked_mem st"
    by (auto simp: vdefs Let_def split: if_splits)
  show "vips_tracked_get_allocs (object_destroy st1 object) = vips_tracked_get_allocs st"
    unfolding d using c by (simp add: vips_tracked_get_allocs_def)
  show "vips_tracked_get_mem (object_destroy st1 object) = vips_tracked_get_mem st"
    unfolding d using c by (simp add: vips_tracked_get_mem_def)
  have "object_destroy ((vips_tracked_free st1 p)\<lparr>handlers := handlers st\<rparr>) object =
      (vips_tracked_free st1 p)\<lparr>handlers := handlers st\<rparr>"
    unfolding object_destroy_def using none
    by (simp add: filter_none run_handlers_none)
  then show "object_destroy (object_destroy st1 object) object = object_destroy st1 object"
    unfolding d .
qed

theorem owner_callback_witness:
  "vips_tracked_malloc False (block_at 4096) vips_init 7 1 =
     Inr (4112, vips_init\<lparr>vips_tracked_allocs := 1, vips_tracked_mem := 17,
       vips_tracked_mem_highwater := 17, vips_tracked_mutex := True,
       memory := (memory vips_init)(4096 := 17), g_blocks := [(4096, 17)],
       handlers := [(7, Vips_tracked_cb, 4112)]\<rparr>) \<and>
   (7 :: ptr) \<noteq> 0 \<and> block_at 4096 (1 + 16) \<noteq> 0 \<and>
   list_all (\<lambda>(obj, cb, buf). obj \<noteq> 7) (handlers vips_init) \<and>
   vips_tracked_get_allocs (object_destroy (vips_init\<lparr>vips_tracked_allocs := 1,
       vips_tracked_mem := 17, vips_tracked_mem_highwater := 17, vips_tracked_mutex := True,
       memory := (memory vips_init)(4096 := 17), g_blocks := [(4096, 17)],
       handlers := [(7, Vips_tracked_cb, 4112)]\<rparr>) 7) = 0 \<and>
   vips_tracked_malloc False exhausted vips_init 7 1 =
     Inr (0, vips_init\<lparr>vips_tracked_mutex := True,
       error_buffer := [(''vips_tracked'', ''out of memory --- size == %dMB'', [Int_arg 0])],
       warnings := [(''vips_tracked'', ''out of memory --- size == %dMB'', [Int_arg 0])]\<rparr>) \<and>
   exhausted (1 + 16) = 0 \<and>
   handlers (vips_init\<lparr>vips_tracked_mutex := True,
       error_buffer := [(''vips_tracked'', ''out of memory --- size == %dMB'', [Int_arg 0])],
       warnings := [(''vips_tracked'', ''out of memory --- size == %dMB'', [Int_arg 0])]\<rparr>) =
     handlers vips_init"
proof -
  let ?S = "vips_init\<lparr>vips_tracked_allocs := 1, vips_tracked_mem := 17,
       vips_tracked_mem_highwater := 17, vips_tracked_mutex := True,
       memory := (memory vips_init)(4096 := 17), g_blocks := [(4096, 17)],
       handlers := [(7, Vips_tracked_cb, 4112)]\<rparr>"
  let ?F = "vips_init\<lparr>vips_tracked_mutex := True,
       error_buffer := [(''vips_tracked'', ''out of memory --- size == %dMB'', [Int_arg 0])],
       warnings := [(''vips_tracked'', ''out of memory --- size == %dMB'', [Int_arg 0])]\<rparr>"
  have e: "vips_tracked_malloc False (block_at 4096) vips_init 7 1 = Inr (4112, ?S)"
    by (simp add: vips_tracked_malloc_def block_at_def vips_init_def Let_def g_signal_connect_def)
  have f: "vips_tracked_malloc False exhausted vips_init 7 1 = Inr (0, ?F)"
    by (simp add: vips_tracked_malloc_def exhausted_def vips_init_def Let_def vips_error_def
        vips_warn_def size_mb_def)
  have o: "(7 :: ptr) \<noteq> 0" by simp
  have s: "block_at 4096 (1 + 16) \<noteq> 0" by (simp add: block_at_def)
  have x: "exhausted (1 + 16) = 0" by (simp add: exhausted_def)
  have l: "list_all (\<lambda>(obj, cb, buf). obj \<noteq> 7) (handlers vips_init)"
    by (simp add: vips_init_def)
  have z: "vips_tracked_get_allocs vips_init = 0"
    by (simp add: vips_tracked_get_allocs_def vips_init_def)
  from owner_callback [OF e o] s l
  have "vips_tracked_get_allocs (object_destroy ?S 7) = vips_tracked_get_allocs vips_init"
    by blast
  with z have 1: "vips_tracked_get_allocs (object_destroy ?S 7) = 0" by simp
  from owner_callback [OF f o] x have 2: "handlers ?F = handlers vips_init" by blast
  from e f o s x l 1 2 show ?thesis by blast
qed

end
